theory Spec2Isabelle
  imports Complex_Main "HOL-Library.AList"
begin

section \<open>Python values and exceptions\<close>

text \<open>
  The notebooks are Python. An exception is a value of \<open>py_error\<close>; a Python \<open>int\<close> is
  an \<open>int\<close>; a Python \<open>float\<close> is a real number or NaN. Rounding is modelled where a
  comparison depends on it, in the assertions on the counts, by \<open>fl64\<close>; elsewhere true
  division and the trigonometric functions are exact.
\<close>

datatype py_error =
  ZeroDivisionError | IndexError | KeyError | AssertionError | RegisterIndexError | CircuitError

datatype npfloat = Fin real | NaN

text \<open>
  Arithmetic on floats never raises: NaN propagates. Infinities are not modelled (the only
  division in the notebooks is by the literal 2), so a zero divisor gives NaN here too.
\<close>

fun fmul :: "npfloat \<Rightarrow> npfloat \<Rightarrow> npfloat" where
  "fmul (Fin a) (Fin b) = Fin (a * b)"
| "fmul _ _ = NaN"

fun fdiv :: "npfloat \<Rightarrow> npfloat \<Rightarrow> npfloat" where
  "fdiv (Fin a) (Fin b) = (if b = 0 then NaN else Fin (a / b))"
| "fdiv _ _ = NaN"

fun fneg :: "npfloat \<Rightarrow> npfloat" where
  "fneg (Fin a) = Fin (- a)"
| "fneg NaN = NaN"

text \<open>
  \<open>np.arccos\<close>: outside \<open>[-1, 1]\<close> numpy returns NaN with a warning and raises nothing.
\<close>

definition np_arccos :: "real \<Rightarrow> npfloat" where
  "np_arccos x = (if - 1 \<le> x \<and> x \<le> 1 then Fin (arccos x) else NaN)"

text \<open>
  A float operation gives the IEEE double nearest to the exact result: 53 significant
  bits, ties to the even one. Overflow and subnormal numbers are out of the range of the
  notebooks and not modelled.
\<close>

definition round_even :: "real \<Rightarrow> int" where
  "round_even y =
     (let f = \<lfloor>y\<rfloor>; d = y - of_int f
      in if d < 1 / 2 then f else if 1 / 2 < d then f + 1 else if even f then f else f + 1)"

definition fl64 :: "real \<Rightarrow> real" where
  "fl64 x =
     (if x = 0 then 0
      else let u = 2 powr (of_int \<lfloor>log 2 \<bar>x\<bar>\<rfloor> - 52)
           in u * of_int (round_even (x / u)))"

text \<open>\<open>xs[i]\<close> on a Python list with a non-negative index.\<close>

definition py_index :: "'a list \<Rightarrow> nat \<Rightarrow> py_error + 'a" where
  "py_index xs i = (if i < length xs then Inr (xs ! i) else Inl IndexError)"

text \<open>\<open>a / b\<close> on two Python ints: true division, raising on a zero divisor.\<close>

definition py_truediv :: "int \<Rightarrow> int \<Rightarrow> py_error + real" where
  "py_truediv a b = (if b = 0 then Inl ZeroDivisionError else Inr (real_of_int a / real_of_int b))"

text \<open>\<open>s[-1]\<close> and \<open>s[0]\<close> on a Python string: the empty string raises IndexError.\<close>

definition str_last :: "string \<Rightarrow> py_error + char" where
  "str_last s = (if s = [] then Inl IndexError else Inr (last s))"

definition str_first :: "string \<Rightarrow> py_error + char" where
  "str_first s = (case s of [] \<Rightarrow> Inl IndexError | ch # _ \<Rightarrow> Inr ch)"

text \<open>\<open>str(n)\<close> on a non-negative Python int: its decimal digits.\<close>

definition digit_char :: "nat \<Rightarrow> char" where
  "digit_char d = ''0123456789'' ! d"

fun str :: "nat \<Rightarrow> string" where
  "str n = (if n < 10 then [digit_char n] else str (n div 10) @ [digit_char (n mod 10)])"

declare str.simps [simp del]

text \<open>
  A Python dict is an association list in insertion order with distinct keys.
  \<open>dict(pairs)\<close> inserts the pairs one by one: a repeated key overwrites the value and
  keeps its first position.
\<close>

definition dict :: "('k \<times> 'v) list \<Rightarrow> ('k \<times> 'v) list" where
  "dict kvs = fold (\<lambda>(k, v). AList.update k v) kvs []"

section \<open>Kernel-methods notebook: post-selection\<close>

type_synonym counts = "(string \<times> int) list"

text \<open>
  The lambda \<open>post_select\<close>: the items whose state string ends in \<open>'0'\<close>, in the order of
  the dict. The comprehension evaluates \<open>state[-1]\<close> on every key in turn.
\<close>

fun post_select :: "counts \<Rightarrow> py_error + counts" where
  "post_select [] = Inr []"
| "post_select ((state, occurences) # rest) =
     (case str_last state of
        Inl e \<Rightarrow> Inl e
      | Inr ch \<Rightarrow>
          (case post_select rest of
             Inl e \<Rightarrow> Inl e
           | Inr kept \<Rightarrow> Inr (if ch = CHR ''0'' then (state, occurences) # kept else kept)))"

text \<open>
  The lambda \<open>retrieve_class\<close>, with the dict \<open>postselection\<close> it closes over as a
  parameter: the occurences of the items whose state string starts with \<open>str(binary_class)\<close>.
\<close>

fun retrieve_class :: "counts \<Rightarrow> nat \<Rightarrow> py_error + int list" where
  "retrieve_class [] binary_class = Inr []"
| "retrieve_class ((state, occurences) # rest) binary_class =
     (case str_first state of
        Inl e \<Rightarrow> Inl e
      | Inr ch \<Rightarrow>
          (case retrieve_class rest binary_class of
             Inl e \<Rightarrow> Inl e
           | Inr occs \<Rightarrow> Inr (if [ch] = str binary_class then occurences # occs else occs)))"

text \<open>
  \<open>postselect\<close> returns nothing and prints three lines. Its model returns the lines printed
  so far, each as its label and the value handed to \<open>round(_, 3)\<close>, and the exception that
  ended the call, if any.
\<close>

type_synonym stdout = "(string \<times> real) list"

definition msg_ancilla :: string where
  "msg_ancilla = ''Ancilla post-selection probability was found to be ''"

definition msg_class0 :: string where
  "msg_class0 = ''Probability for class 0 is''"

definition msg_class1 :: string where
  "msg_class1 = ''Probability for class 1 is''"

definition postselect :: "counts \<Rightarrow> stdout \<times> py_error option" where
  "postselect result_counts =
     (let total_samples = sum_list (map snd result_counts) in
      case post_select result_counts of
        Inl e \<Rightarrow> ([], Some e)
      | Inr selected \<Rightarrow>
          let postselection = dict selected;
              postselected_samples = sum_list (map snd postselection)
          in
          (case py_truediv postselected_samples total_samples of
             Inl e \<Rightarrow> ([], Some e)
           | Inr ancilla_post_selection \<Rightarrow>
               let out1 = [(msg_ancilla, ancilla_post_selection)] in
               (case retrieve_class postselection 0 of
                  Inl e \<Rightarrow> (out1, Some e)
                | Inr occs0 \<Rightarrow>
                    (case py_truediv (sum_list occs0) postselected_samples of
                       Inl e \<Rightarrow> (out1, Some e)
                     | Inr prob_class0 \<Rightarrow>
                         (case retrieve_class postselection 1 of
                            Inl e \<Rightarrow> (out1, Some e)
                          | Inr occs1 \<Rightarrow>
                              (case py_truediv (sum_list occs1) postselected_samples of
                                 Inl e \<Rightarrow> (out1, Some e)
                               | Inr prob_class1 \<Rightarrow>
                                   (out1 @ [(msg_class0, prob_class0), (msg_class1, prob_class1)],
                                    None)))))))"

text \<open>
  A counts dictionary as the simulator returns it: distinct keys, every key a non-empty
  state string, every count positive (an outcome that never occurred has no entry).
\<close>

definition is_counts :: "counts \<Rightarrow> bool" where
  "is_counts rc \<longleftrightarrow> distinct (map fst rc) \<and> list_all (\<lambda>(state, n). state \<noteq> [] \<and> 0 < n) rc"

section \<open>Circuits\<close>

text \<open>
  A circuit of the SDK is the registers it was built on and the instructions appended so
  far. A register is its size, a qubit its index in the quantum register; \<open>q[i]\<close> fails
  outside the register, with the SDK's exception that is \<open>RegisterIndexError\<close> here. The
  builder methods append one instruction each.
\<close>

type_synonym qubit = nat

datatype instr =
    H qubit
  | X qubit
  | CX qubit qubit
  | CCX qubit qubit qubit
  | RY npfloat qubit
  | CU3 npfloat npfloat npfloat qubit qubit
  | Barrier
  | Measure nat nat

record circuit =
  qreg :: nat
  creg :: nat
  data :: "instr list"

definition QuantumCircuit :: "nat \<Rightarrow> nat \<Rightarrow> circuit" where
  "QuantumCircuit q c = \<lparr>qreg = q, creg = c, data = []\<rparr>"

definition append_instr :: "circuit \<Rightarrow> instr \<Rightarrow> circuit" where
  "append_instr circ g = circ\<lparr>data := data circ @ [g]\<rparr>"

definition qubit_at :: "nat \<Rightarrow> nat \<Rightarrow> py_error + qubit" where
  "qubit_at q i = (if i < q then Inr i else Inl RegisterIndexError)"

subsection \<open>What the gates do\<close>

text \<open>
  The gates are the SDK's. They are modelled by their standard action on the amplitude
  vector, which the notebook's prose uses too: CCX flips the target if both controls are
  1, and the rotation gates take the angle that they halve. A state gives each basis state,
  a natural number whose bit \<open>k\<close> is the value of qubit \<open>k\<close>, its amplitude.
\<close>

type_synonym state = "nat \<Rightarrow> complex"

type_synonym matrix2 = "bool \<Rightarrow> bool \<Rightarrow> complex"

definition h_matrix :: matrix2 where
  "h_matrix r c = (if r \<and> c then - 1 else 1) / complex_of_real (sqrt 2)"

definition x_matrix :: matrix2 where
  "x_matrix r c = (if r = c then 0 else 1)"

definition ry_matrix :: "real \<Rightarrow> matrix2" where
  "ry_matrix theta r c =
     (if r = c then complex_of_real (cos (theta / 2))
      else if r then complex_of_real (sin (theta / 2))
      else - complex_of_real (sin (theta / 2)))"

definition u3_matrix :: "real \<Rightarrow> real \<Rightarrow> real \<Rightarrow> matrix2" where
  "u3_matrix theta phi lam r c =
     (if \<not> r \<and> \<not> c then complex_of_real (cos (theta / 2))
      else if \<not> r \<and> c then - cis lam * complex_of_real (sin (theta / 2))
      else if r \<and> \<not> c then cis phi * complex_of_real (sin (theta / 2))
      else cis (phi + lam) * complex_of_real (cos (theta / 2)))"

text \<open>A one-qubit gate with matrix \<open>U\<close> (row, column) on qubit \<open>k\<close>.\<close>

definition apply1 :: "matrix2 \<Rightarrow> qubit \<Rightarrow> state \<Rightarrow> state" where
  "apply1 U k psi =
     (\<lambda>i. U (bit i k) False * psi (unset_bit k i) + U (bit i k) True * psi (set_bit k i))"

text \<open>A gate on other qubits, applied where the control qubit is 1.\<close>

definition controlled :: "qubit \<Rightarrow> (state \<Rightarrow> state) \<Rightarrow> state \<Rightarrow> state" where
  "controlled c G psi = (\<lambda>i. if bit i c then G psi i else psi i)"

text \<open>
  A NaN parameter and a measurement leave no amplitude vector: the result is \<open>None\<close>.
  \<open>cu3\<close> is the controlled U3 rotation; the notebook calls it with both phases 0, where it
  is the controlled RY.
\<close>

fun apply_instr :: "instr \<Rightarrow> state \<Rightarrow> state option" where
  "apply_instr (H k) psi = Some (apply1 h_matrix k psi)"
| "apply_instr (X k) psi = Some (apply1 x_matrix k psi)"
| "apply_instr (CX c t) psi = Some (controlled c (apply1 x_matrix t) psi)"
| "apply_instr (CCX a b t) psi = Some (controlled a (controlled b (apply1 x_matrix t)) psi)"
| "apply_instr (RY (Fin theta) k) psi = Some (apply1 (ry_matrix theta) k psi)"
| "apply_instr (RY NaN k) psi = None"
| "apply_instr (CU3 (Fin theta) (Fin phi) (Fin lam) c t) psi =
     Some (controlled c (apply1 (u3_matrix theta phi lam) t) psi)"
| "apply_instr (CU3 _ _ _ c t) psi = None"
| "apply_instr Barrier psi = Some psi"
| "apply_instr (Measure q c) psi = None"

fun run :: "instr list \<Rightarrow> state \<Rightarrow> state option" where
  "run [] psi = Some psi"
| "run (g # gs) psi = (case apply_instr g psi of None \<Rightarrow> None | Some psi' \<Rightarrow> run gs psi')"

definition ket0 :: state where
  "ket0 i = (if i = 0 then 1 else 0)"

section \<open>Kernel-methods notebook: state preparation\<close>

text \<open>
  The registers of the notebook's first cell, \<open>q\<close> and \<open>c\<close>, and its data.
\<close>

definition q_register :: nat where
  "q_register = 4"

definition c_register :: nat where
  "c_register = 4"

definition training_set :: "real list list" where
  "training_set = [[0, 1], [0.79, 0.615]]"

definition labels :: "nat list" where
  "labels = [0, 1]"

definition test_set :: "real list list" where
  "test_set = [[- 0.549, 0.836], [0.053, 0.999]]"

definition get_angle :: "real \<Rightarrow> npfloat" where
  "get_angle amplitude_0 = fmul (Fin 2) (np_arccos amplitude_0)"

text \<open>
  \<open>prepare_state\<close> builds a fresh circuit; an exception leaves nothing behind, so the
  lookups are made first and the instructions follow in the order of the calls.
\<close>

definition prepare_state :: "nat \<Rightarrow> nat \<Rightarrow> npfloat list \<Rightarrow> py_error + circuit" where
  "prepare_state q c angles =
     (case qubit_at q 0 of Inl e \<Rightarrow> Inl e | Inr ancilla_qubit \<Rightarrow>
      case qubit_at q 1 of Inl e \<Rightarrow> Inl e | Inr index_qubit \<Rightarrow>
      case qubit_at q 2 of Inl e \<Rightarrow> Inl e | Inr data_qubit \<Rightarrow>
      case qubit_at q 3 of Inl e \<Rightarrow> Inl e | Inr class_qubit \<Rightarrow>
      case py_index angles 0 of Inl e \<Rightarrow> Inl e | Inr angle0 \<Rightarrow>
      case py_index angles 1 of Inl e \<Rightarrow> Inl e | Inr angle1 \<Rightarrow>
        Inr (foldl append_instr (QuantumCircuit q c)
          [H ancilla_qubit,
           H index_qubit,
           Barrier,
           CU3 angle0 (Fin 0) (Fin 0) ancilla_qubit data_qubit,
           X ancilla_qubit,
           Barrier,
           CCX ancilla_qubit index_qubit data_qubit,
           X index_qubit,
           Barrier,
           CCX ancilla_qubit index_qubit data_qubit,
           RY (fneg angle1) data_qubit,
           CCX ancilla_qubit index_qubit data_qubit,
           RY angle1 data_qubit,
           Barrier,
           CX index_qubit class_qubit]))"

text \<open>
  The cell that computes the angles and prepares the first circuit. The notebook assigns the
  name \<open>angles\<close> twice; \<open>angles_0\<close> is its first value.
\<close>

definition test_angles :: "npfloat list" where
  "test_angles = [get_angle (test_set ! 0 ! 0), get_angle (test_set ! 1 ! 0)]"

definition training_angle :: npfloat where
  "training_angle = fdiv (get_angle (training_set ! 1 ! 0)) (Fin 2)"

definition angles_0 :: "npfloat list" where
  "angles_0 = [test_angles ! 0, training_angle]"

definition state_preparation_0 :: "py_error + circuit" where
  "state_preparation_0 = prepare_state q_register c_register angles_0"

text \<open>
  \<open>interfere_data_and_test_instances\<close> appends to the circuit it is given and returns it.
  The SDK raises CircuitError for a qubit of a register that the circuit was not built on,
  for a classical register that it was not built on, and for a measurement between
  registers of different sizes. The result is the circuit object as the call leaves it and
  the exception, if any: when \<open>measure\<close> raises, the Hadamard and the barrier are already
  appended. A register being its size, the registers of the circuit are those of its
  sizes.
\<close>

definition interfere_data_and_test_instances ::
  "circuit \<Rightarrow> nat \<Rightarrow> nat \<Rightarrow> 'a \<Rightarrow> circuit \<times> py_error option" where
  "interfere_data_and_test_instances circ q c angles =
     (case qubit_at q 0 of
        Inl e \<Rightarrow> (circ, Some e)
      | Inr q0 \<Rightarrow>
          if q \<noteq> qreg circ then (circ, Some CircuitError)
          else
            let circ1 = append_instr (append_instr circ (H q0)) Barrier
            in if c \<noteq> creg circ \<or> q \<noteq> c then (circ1, Some CircuitError)
               else (append_instr circ1 (Measure q c), None))"

text \<open>
  The double-controlled rotation that the notebook's prose asks for: where both controls
  are 1 the target is rotated by RY of the angle, elsewhere nothing changes.
\<close>

definition ccry :: "real \<Rightarrow> qubit \<Rightarrow> qubit \<Rightarrow> qubit \<Rightarrow> state \<Rightarrow> state" where
  "ccry theta a b t psi =
     (\<lambda>i. if bit i a \<and> bit i b then apply1 (ry_matrix theta) t psi i else psi i)"

text \<open>The basis state \<open>b\<close> as an amplitude vector.\<close>

definition ket :: "nat \<Rightarrow> state" where
  "ket b i = (if i = b then 1 else 0)"

section \<open>Gate-model assignment\<close>

definition exercise1_circuit :: "py_error + circuit" where
  "exercise1_circuit =
     (let q = 1; c = 1; circ = QuantumCircuit q c in
      case qubit_at q 0 of
        Inl e \<Rightarrow> Inl e
      | Inr q0 \<Rightarrow> Inr (foldl append_instr circ [X q0, H q0, X q0]))"

definition exercise2_circuit :: "py_error + circuit" where
  "exercise2_circuit =
     (let q = 3; c = 3; circ = QuantumCircuit q c in
      case qubit_at q 0 of Inl e \<Rightarrow> Inl e | Inr q0 \<Rightarrow>
      case qubit_at q 1 of Inl e \<Rightarrow> Inl e | Inr q1 \<Rightarrow>
      case qubit_at q 2 of Inl e \<Rightarrow> Inl e | Inr q2 \<Rightarrow>
        Inr (foldl append_instr circ [H q0, CX q0 q1, CX q1 q2]))"

text \<open>Exercise 3 adds the measurement to the circuit of exercise 2.\<close>

definition exercise3_circuit :: "py_error + circuit" where
  "exercise3_circuit =
     (case exercise2_circuit of
        Inl e \<Rightarrow> Inl e
      | Inr circ \<Rightarrow> Inr (append_instr circ (Measure 3 3)))"

text \<open>
  Modelled from the spec: \<open>get_amplitudes\<close> of the assignment's helper file, which is not
  among the sources. The spec calls it a simulation function whose result the notebook
  inspects: the amplitude vector of the circuit run from the all-zero state.
\<close>

definition get_amplitudes :: "circuit \<Rightarrow> complex list option" where
  "get_amplitudes circ = map_option (\<lambda>psi. map psi [0..<2 ^ qreg circ]) (run (data circ) ket0)"

text \<open>
  Modelled from the spec: the sampling behind \<open>get_counts\<close>, which the spec leaves to the
  simulator. The probability that the final measurement of all qubits gives the basis
  state \<open>i\<close> is the squared modulus of its amplitude before the measurement.
\<close>

definition outcome_probability :: "circuit \<Rightarrow> nat \<Rightarrow> real option" where
  "outcome_probability circ i =
     (if data circ = [] then None
      else case last (data circ) of
        Measure q c \<Rightarrow> map_option (\<lambda>psi. (cmod (psi i))\<^sup>2) (run (butlast (data circ)) ket0)
      | _ \<Rightarrow> None)"

text \<open>The key of an outcome in the counts: one character per bit, the last qubit first.\<close>

definition bitstring :: "nat \<Rightarrow> nat \<Rightarrow> string" where
  "bitstring n i = map (\<lambda>k. if bit i k then CHR ''1'' else CHR ''0'') (rev [0..<n])"

text \<open>
  Modelled from the spec: \<open>get_counts\<close> of the assignment's helper file, which is not among
  the sources. The spec calls it an execution function that gives the counts of the
  outcomes over 100 shots. The sampler is random: a run is any list of 100 outcomes, each
  of them an outcome of non-zero probability. The run is a parameter of \<open>get_counts\<close>; an
  outcome that never occurred has no entry in the counts.
\<close>

definition possible_run :: "circuit \<Rightarrow> nat list \<Rightarrow> bool" where
  "possible_run circ shots \<longleftrightarrow>
     length shots = 100 \<and>
     list_all (\<lambda>i. i < 2 ^ qreg circ \<and>
       (case outcome_probability circ i of None \<Rightarrow> False | Some p \<Rightarrow> 0 < p)) shots"

definition get_counts :: "circuit \<Rightarrow> nat list \<Rightarrow> (string \<rightharpoonup> int)" where
  "get_counts circ shots =
     (\<lambda>key. let n = count_list (map (bitstring (creg circ)) shots) key
            in if n = 0 then None else Some (int n))"

text \<open>
  The three assertions on the counts, in order; \<open>counts[key]\<close> raises on a missing key.
  The quotient of the two ints and the difference are rounded, and \<open>0.1\<close> is the double
  nearest to one tenth.
\<close>

definition exercise3_asserts :: "(string \<rightharpoonup> int) \<Rightarrow> py_error option" where
  "exercise3_asserts counts =
     (case counts ''000'' of
        None \<Rightarrow> Some KeyError
      | Some n0 \<Rightarrow>
          if \<not> \<bar>fl64 (fl64 (real_of_int n0 / 100) - 1 / 2)\<bar> < fl64 (1 / 10)
          then Some AssertionError
          else (case counts ''111'' of
             None \<Rightarrow> Some KeyError
           | Some n1 \<Rightarrow>
               if \<not> \<bar>fl64 (fl64 (real_of_int n1 / 100) - 1 / 2)\<bar> < fl64 (1 / 10)
               then Some AssertionError
               else if n0 + n1 \<noteq> 100 then Some AssertionError
               else None))"

text \<open>
  \<open>np.allclose\<close> with its default tolerances, on two vectors of the same length.
\<close>

definition np_allclose :: "complex list \<Rightarrow> complex list \<Rightarrow> bool" where
  "np_allclose a b = list_all2 (\<lambda>x y. cmod (x - y) \<le> 1 / 10 ^ 8 + 1 / 10 ^ 5 * cmod y) a b"

section \<open>Post-selection as the glossary words it\<close>

text \<open>
  Keep the entries whose ancilla bit, the last character, is 0; the probability of a class
  is the kept count of the states that start with its digit over the kept count.
\<close>

definition ancilla0 :: "string \<times> int \<Rightarrow> bool" where
  "ancilla0 e = (last (fst e) = CHR ''0'')"

definition kept_entries :: "counts \<Rightarrow> counts" where
  "kept_entries rc = filter ancilla0 rc"

definition kept_count :: "counts \<Rightarrow> int" where
  "kept_count rc = (\<Sum>(state, n)\<leftarrow>kept_entries rc. n)"

definition class_count :: "counts \<Rightarrow> char \<Rightarrow> int" where
  "class_count rc b = (\<Sum>(state, n)\<leftarrow>kept_entries rc. if hd state = b then n else 0)"

section \<open>Properties of post-selection\<close>

lemma str_0: "str 0 = ''0''"
  by (simp add: str.simps digit_char_def)

lemma str_1: "str 1 = ''1''"
  by (simp add: str.simps digit_char_def)

lemma fold_update_fresh:
  "distinct (map fst kvs) \<Longrightarrow> fst ` set kvs \<inter> fst ` set acc = {} \<Longrightarrow>
   fold (\<lambda>(k, v). AList.update k v) kvs acc = acc @ kvs"
proof (induction kvs arbitrary: acc)
  case Nil
  then show ?case by simp
next
  case (Cons kv kvs)
  obtain k v where kv: "kv = (k, v)" by (cases kv)
  have fresh: "k \<notin> fst ` set acc" using Cons.prems(2) kv by auto
  have upd: "AList.update k v acc = acc @ [(k, v)]"
    using fresh by (induction acc) auto
  have "fold (\<lambda>(k, v). AList.update k v) kvs (acc @ [(k, v)]) = (acc @ [(k, v)]) @ kvs"
  proof (rule Cons.IH)
    show "distinct (map fst kvs)" using Cons.prems(1) by simp
    show "fst ` set kvs \<inter> fst ` set (acc @ [(k, v)]) = {}"
      using Cons.prems kv by auto
  qed
  then show ?case using kv upd by simp
qed

lemma dict_distinct: "distinct (map fst kvs) \<Longrightarrow> dict kvs = kvs"
  using fold_update_fresh [of kvs "[]"] by (simp add: dict_def)

lemma post_select_filter:
  "list_all (\<lambda>(state, n). state \<noteq> []) rc \<Longrightarrow> post_select rc = Inr (kept_entries rc)"
  by (induction rc) (auto simp: str_last_def kept_entries_def ancilla0_def)

lemma retrieve_class_filter:
  "list_all (\<lambda>(state, n). state \<noteq> []) sel \<Longrightarrow>
   retrieve_class sel b = Inr (map snd (filter (\<lambda>(state, n). [hd state] = str b) sel))"
  by (induction sel) (auto simp: str_first_def split: list.splits)

lemma sum_retrieved:
  "sum_list (map snd (filter (\<lambda>(state, n). [hd state] = [b]) sel)) =
   (\<Sum>(state, n)\<leftarrow>sel. if hd state = b then n else 0)"
  by (induction sel) auto

lemma retrieve_class_0:
  assumes "list_all (\<lambda>(state, n). state \<noteq> []) sel"
  shows "\<exists>occs. retrieve_class sel 0 = Inr occs \<and>
     sum_list occs = (\<Sum>(state, n)\<leftarrow>sel. if hd state = CHR ''0'' then n else 0)"
  using retrieve_class_filter [OF assms, of 0] sum_retrieved [of "CHR ''0''" sel]
  by (simp only: str_0) simp

lemma retrieve_class_1:
  assumes "list_all (\<lambda>(state, n). state \<noteq> []) sel"
  shows "\<exists>occs. retrieve_class sel 1 = Inr occs \<and>
     sum_list occs = (\<Sum>(state, n)\<leftarrow>sel. if hd state = CHR ''1'' then n else 0)"
  using retrieve_class_filter [OF assms, of 1] sum_retrieved [of "CHR ''1''" sel]
  by (simp only: str_1) simp

lemma is_counts_keys: "is_counts rc \<Longrightarrow> list_all (\<lambda>(state, n). state \<noteq> []) rc"
  by (auto simp: is_counts_def list_all_iff)

lemma is_counts_kept_keys: "is_counts rc \<Longrightarrow> list_all (\<lambda>(state, n). state \<noteq> []) (kept_entries rc)"
  by (auto simp: is_counts_def list_all_iff kept_entries_def)

lemma is_counts_kept_distinct: "is_counts rc \<Longrightarrow> distinct (map fst (kept_entries rc))"
  by (simp add: is_counts_def kept_entries_def distinct_map_filter)

lemma sum_snd_conv: "sum_list (map snd xs) = (\<Sum>(state, n)\<leftarrow>xs. n)"
  by (induction xs) auto

lemma postselect_cases:
  assumes "is_counts rc"
  shows "postselect rc =
    (if sum_list (map snd rc) = 0 then ([], Some ZeroDivisionError)
     else if kept_count rc = 0
       then ([(msg_ancilla, real_of_int (kept_count rc) / real_of_int (sum_list (map snd rc)))], Some ZeroDivisionError)
     else ([(msg_ancilla, real_of_int (kept_count rc) / real_of_int (sum_list (map snd rc))),
            (msg_class0, real_of_int (class_count rc CHR ''0'') / real_of_int (kept_count rc)),
            (msg_class1, real_of_int (class_count rc CHR ''1'') / real_of_int (kept_count rc))], None))"
proof -
  have sel: "post_select rc = Inr (kept_entries rc)"
    using assms by (simp add: post_select_filter is_counts_keys)
  have dict: "dict (kept_entries rc) = kept_entries rc"
    using assms by (simp add: dict_distinct is_counts_kept_distinct)
  have ps: "sum_list (map snd (kept_entries rc)) = kept_count rc"
    by (simp add: kept_count_def sum_snd_conv)
  obtain occs0 where o0: "retrieve_class (kept_entries rc) 0 = Inr occs0"
      "sum_list occs0 = class_count rc CHR ''0''"
    using retrieve_class_0 [OF is_counts_kept_keys [OF assms]] by (auto simp: class_count_def)
  obtain occs1 where o1: "retrieve_class (kept_entries rc) 1 = Inr occs1"
      "sum_list occs1 = class_count rc CHR ''1''"
    using retrieve_class_1 [OF is_counts_kept_keys [OF assms]] by (auto simp: class_count_def)
  show ?thesis
    using o0 o1 by (simp add: postselect_def sel dict ps py_truediv_def Let_def)
qed

lemma pos_sum: "list_all (\<lambda>(state, n). 0 < (n::int)) xs \<Longrightarrow> xs \<noteq> [] \<Longrightarrow> 0 < sum_list (map snd xs)"
proof (induction xs)
  case Nil
  then show ?case by simp
next
  case (Cons x xs)
  then show ?case by (cases xs) (auto simp: add_pos_pos)
qed

lemma is_counts_total_pos: "is_counts rc \<Longrightarrow> rc \<noteq> [] \<Longrightarrow> 0 < sum_list (map snd rc)"
  by (rule pos_sum) (auto simp: is_counts_def list_all_iff)

lemma is_counts_kept_pos: "is_counts rc \<Longrightarrow> kept_entries rc \<noteq> [] \<Longrightarrow> 0 < kept_count rc"
  unfolding kept_count_def sum_snd_conv [symmetric]
  by (rule pos_sum) (auto simp: is_counts_def list_all_iff kept_entries_def)

lemma kept_count_Nil: "kept_entries rc = [] \<Longrightarrow> kept_count rc = 0"
  by (simp add: kept_count_def)

lemma class_split:
  "list_all (\<lambda>(state, n). hd state = CHR ''0'' \<or> hd state = CHR ''1'') xs \<Longrightarrow>
   (\<Sum>(state, n)\<leftarrow>xs. if hd state = CHR ''0'' then n else 0) +
   (\<Sum>(state, n)\<leftarrow>xs. if hd state = CHR ''1'' then n else 0) = (\<Sum>(state, n)\<leftarrow>xs. (n::int))"
  by (induction xs) auto

text \<open>
  C3. On a counts dictionary with an outcome whose ancilla bit is 0, \<open>postselect\<close> keeps
  exactly the entries whose state string ends in \<open>'0'\<close> and divides by the sum of the kept
  counts: the probability of class 0 is the kept count of the states starting with \<open>'0'\<close>
  over the kept count, that of class 1 likewise with \<open>'1'\<close>, and the ancilla probability
  is the kept count over all samples.
\<close>

theorem postselect_postselection:
  assumes "is_counts rc" and "kept_entries rc \<noteq> []"
  shows "post_select rc = Inr (kept_entries rc) \<and>
    postselect rc =
      ([(msg_ancilla, real_of_int (kept_count rc) / real_of_int (sum_list (map snd rc))),
        (msg_class0, real_of_int (class_count rc CHR ''0'') / real_of_int (kept_count rc)),
        (msg_class1, real_of_int (class_count rc CHR ''1'') / real_of_int (kept_count rc))], None)"
proof -
  have "rc \<noteq> []" using assms(2) by (auto simp: kept_entries_def)
  then have "sum_list (map snd rc) \<noteq> 0" using is_counts_total_pos [OF assms(1)] by simp
  moreover have "kept_count rc \<noteq> 0" using is_counts_kept_pos [OF assms] by simp
  ultimately show ?thesis
    using assms(1) by (simp add: postselect_cases post_select_filter is_counts_keys)
qed

theorem postselect_postselection_witness:
  "is_counts [(''0000'', 30), (''1001'', 20), (''1010'', 10)] \<and>
   kept_entries [(''0000'', 30), (''1001'', 20), (''1010'', 10)] = [(''0000'', 30), (''1010'', 10)] \<and>
   postselect [(''0000'', 30), (''1001'', 20), (''1010'', 10)] =
     ([(msg_ancilla, 2 / 3), (msg_class0, 3 / 4), (msg_class1, 1 / 4)], None)"
  using postselect_postselection [of "[(''0000'', 30), (''1001'', 20), (''1010'', 10)]"]
  by (simp add: is_counts_def kept_entries_def ancilla0_def kept_count_def class_count_def)

text \<open>
  C8. On a counts dictionary with an outcome whose ancilla bit is 0, where every kept state
  string starts with \<open>'0'\<close> or \<open>'1'\<close>, \<open>postselect\<close> completes and the two class
  probabilities it prints add up to 1.
\<close>

theorem postselect_probabilities_sum:
  assumes "is_counts rc" and "kept_entries rc \<noteq> []"
    and "list_all (\<lambda>(state, n). hd state = CHR ''0'' \<or> hd state = CHR ''1'') (kept_entries rc)"
  shows "\<exists>a prob_class0 prob_class1.
     postselect rc = ([(msg_ancilla, a), (msg_class0, prob_class0), (msg_class1, prob_class1)], None) \<and>
     prob_class0 + prob_class1 = 1"
proof -
  have "rc \<noteq> []" using assms(2) by (auto simp: kept_entries_def)
  then have t: "sum_list (map snd rc) \<noteq> 0" using is_counts_total_pos [OF assms(1)] by simp
  have k: "kept_count rc \<noteq> 0" using is_counts_kept_pos [OF assms(1,2)] by simp
  have "class_count rc CHR ''0'' + class_count rc CHR ''1'' = kept_count rc"
    using class_split [OF assms(3)] by (simp add: class_count_def kept_count_def)
  then have "real_of_int (class_count rc CHR ''0'') / real_of_int (kept_count rc) +
      real_of_int (class_count rc CHR ''1'') / real_of_int (kept_count rc) = 1"
    using k by (simp add: add_divide_distrib [symmetric] del: of_int_add flip: of_int_add)
  then show ?thesis
    using t k assms(1) by (simp add: postselect_cases)
qed

theorem postselect_probabilities_sum_witness:
  "is_counts [(''0010'', 7), (''1100'', 5), (''0111'', 88)] \<and>
   kept_entries [(''0010'', 7), (''1100'', 5), (''0111'', 88)] \<noteq> [] \<and>
   list_all (\<lambda>(state, n). hd state = CHR ''0'' \<or> hd state = CHR ''1'')
     (kept_entries [(''0010'', 7), (''1100'', 5), (''0111'', 88)]) \<and>
   (\<exists>a prob_class0 prob_class1.
     postselect [(''0010'', 7), (''1100'', 5), (''0111'', 88)] =
       ([(msg_ancilla, a), (msg_class0, prob_class0), (msg_class1, prob_class1)], None) \<and>
     prob_class0 + prob_class1 = 1)"
  using postselect_probabilities_sum [of "[(''0010'', 7), (''1100'', 5), (''0111'', 88)]"]
  by (simp add: is_counts_def kept_entries_def ancilla0_def)

text \<open>
  C9. \<open>postselect\<close> is partial. On the empty dictionary it raises ZeroDivisionError before
  anything is printed, at the ancilla probability. On a non-empty counts dictionary with
  no state string ending in \<open>'0'\<close> it prints the ancilla probability 0 and raises
  ZeroDivisionError at the probability of class 0. On a counts dictionary it completes
  exactly when some state string ends in \<open>'0'\<close>.
\<close>

theorem postselect_partial:
  "postselect [] = ([], Some ZeroDivisionError) \<and>
   (is_counts rc \<longrightarrow>
      (rc \<noteq> [] \<and> kept_entries rc = [] \<longrightarrow>
         postselect rc = ([(msg_ancilla, 0)], Some ZeroDivisionError)) \<and>
      (snd (postselect rc) = None \<longleftrightarrow> (\<exists>(state, n)\<in>set rc. last state = CHR ''0'')))"
proof (intro conjI impI)
  show "postselect [] = ([], Some ZeroDivisionError)"
    by (simp add: postselect_def dict_def py_truediv_def)
next
  assume c: "is_counts rc" and h: "rc \<noteq> [] \<and> kept_entries rc = []"
  have "sum_list (map snd rc) \<noteq> 0" using is_counts_total_pos [OF c] h by simp
  then show "postselect rc = ([(msg_ancilla, 0)], Some ZeroDivisionError)"
    using c h by (simp add: postselect_cases kept_count_Nil)
next
  assume c: "is_counts rc"
  have ex: "(\<exists>(state, n)\<in>set rc. last state = CHR ''0'') \<longleftrightarrow> kept_entries rc \<noteq> []"
    by (force simp: kept_entries_def ancilla0_def filter_empty_conv)
  show "snd (postselect rc) = None \<longleftrightarrow> (\<exists>(state, n)\<in>set rc. last state = CHR ''0'')"
  proof (cases "kept_entries rc = []")
    case True
    then show ?thesis using c ex by (simp add: postselect_cases kept_count_Nil)
  next
    case False
    then have "rc \<noteq> []" by (auto simp: kept_entries_def)
    then have "sum_list (map snd rc) \<noteq> 0" using is_counts_total_pos [OF c] by simp
    moreover have "kept_count rc \<noteq> 0" using is_counts_kept_pos [OF c False] by simp
    ultimately show ?thesis using c ex False by (simp add: postselect_cases)
  qed
qed

theorem postselect_partial_witness:
  "is_counts [(''0001'', 60), (''1011'', 40)] \<and>
   kept_entries [(''0001'', 60), (''1011'', 40)] = [] \<and>
   postselect [(''0001'', 60), (''1011'', 40)] = ([(msg_ancilla, 0)], Some ZeroDivisionError) \<and>
   is_counts [(''0001'', 60), (''1010'', 40)] \<and>
   snd (postselect [(''0001'', 60), (''1010'', 40)]) = None"
  using postselect_partial [of "[(''0001'', 60), (''1011'', 40)]"]
    postselect_partial [of "[(''0001'', 60), (''1010'', 40)]"]
  by (simp add: is_counts_def kept_entries_def ancilla0_def)

section \<open>Properties of the circuits\<close>

subsection \<open>Bits of a basis state\<close>

lemma set_set [simp]: "set_bit k (set_bit k i) = set_bit k (i::nat)"
  by (rule bit_eqI) (auto simp: bit_simps)
lemma set_unset [simp]: "set_bit k (unset_bit k i) = set_bit k (i::nat)"
  by (rule bit_eqI) (auto simp: bit_simps)
lemma unset_set [simp]: "unset_bit k (set_bit k i) = unset_bit k (i::nat)"
  by (rule bit_eqI) (auto simp: bit_simps)
lemma unset_unset [simp]: "unset_bit k (unset_bit k i) = unset_bit k (i::nat)"
  by (rule bit_eqI) (auto simp: bit_simps)
lemma set_triv: "bit i k \<Longrightarrow> set_bit k i = (i::nat)"
  by (rule bit_eqI) (auto simp: bit_simps)
lemma unset_triv: "\<not> bit i k \<Longrightarrow> unset_bit k i = (i::nat)"
  by (rule bit_eqI) (auto simp: bit_simps)

lemma half_angle:
  "complex_of_real (cos theta) =
     complex_of_real (cos (theta / 2)) * complex_of_real (cos (theta / 2)) -
     complex_of_real (sin (theta / 2)) * complex_of_real (sin (theta / 2))"
  "complex_of_real (sin theta) =
     2 * complex_of_real (sin (theta / 2)) * complex_of_real (cos (theta / 2))"
  "complex_of_real (cos (theta / 2)) * complex_of_real (cos (theta / 2)) +
     complex_of_real (sin (theta / 2)) * complex_of_real (sin (theta / 2)) = 1"
proof -
  have "cos theta = cos (theta / 2) * cos (theta / 2) - sin (theta / 2) * sin (theta / 2)"
    using cos_add [of "theta / 2" "theta / 2"] by simp
  then show "complex_of_real (cos theta) =
     complex_of_real (cos (theta / 2)) * complex_of_real (cos (theta / 2)) -
     complex_of_real (sin (theta / 2)) * complex_of_real (sin (theta / 2))"
    by (simp only: of_real_mult of_real_diff)
  have "sin theta = 2 * sin (theta / 2) * cos (theta / 2)"
    using sin_add [of "theta / 2" "theta / 2"] by simp
  then show "complex_of_real (sin theta) =
     2 * complex_of_real (sin (theta / 2)) * complex_of_real (cos (theta / 2))"
    by (simp only: of_real_mult of_real_numeral)
  have "cos (theta / 2) * cos (theta / 2) + sin (theta / 2) * sin (theta / 2) = 1"
    using sin_cos_squared_add2 [of "theta / 2"] by (simp add: power2_eq_square)
  then have "complex_of_real (cos (theta / 2) * cos (theta / 2) + sin (theta / 2) * sin (theta / 2)) = 1"
    by (simp only: of_real_1)
  then show "complex_of_real (cos (theta / 2)) * complex_of_real (cos (theta / 2)) +
     complex_of_real (sin (theta / 2)) * complex_of_real (sin (theta / 2)) = 1"
    by (simp only: of_real_mult of_real_add)
qed

lemma core_pointwise:
  "apply1 (ry_matrix theta) 2 (controlled 0 (controlled (Suc 0) (apply1 x_matrix 2))
     (apply1 (ry_matrix (- theta)) 2 (controlled 0 (controlled (Suc 0) (apply1 x_matrix 2)) psi))) i
     = ccry (2 * theta) 0 (Suc 0) 2 psi i"
proof -
  define c where "c = complex_of_real (cos (theta / 2))"
  define s where "s = complex_of_real (sin (theta / 2))"
  have cs: "c * c + s * s = 1" "complex_of_real (cos theta) = c * c - s * s"
    "complex_of_real (sin theta) = 2 * s * c"
    unfolding c_def s_def using half_angle [of theta] by simp_all
  have unit: "c * (c * z) + s * (s * z) = z" for z
  proof -
    have "c * (c * z) + s * (s * z) = (c * c + s * s) * z"
      by (simp add: algebra_simps)
    then show ?thesis by (simp add: cs(1))
  qed
  show ?thesis
  proof (cases "bit i 0 \<and> bit i (Suc 0)")
    case True
    show ?thesis
    proof (cases "bit i 2")
      case True
      with \<open>bit i 0 \<and> bit i (Suc 0)\<close> show ?thesis
        apply (simp add: ccry_def controlled_def apply1_def bit_simps x_matrix_def ry_matrix_def
            set_triv unset_triv cs flip: c_def s_def)
        apply (simp add: algebra_simps)
        done
    next
      case False
      with \<open>bit i 0 \<and> bit i (Suc 0)\<close> show ?thesis
        apply (simp add: ccry_def controlled_def apply1_def bit_simps x_matrix_def ry_matrix_def
            set_triv unset_triv cs flip: c_def s_def)
        apply (simp add: algebra_simps)
        done
    qed
  next
    case False
    show ?thesis
    proof (cases "bit i 2")
      case True
      with \<open>\<not> (bit i 0 \<and> bit i (Suc 0))\<close> show ?thesis
        apply (simp add: ccry_def controlled_def apply1_def bit_simps x_matrix_def ry_matrix_def
            set_triv unset_triv flip: c_def s_def)
        apply (simp add: algebra_simps unit)
        done
    next
      case False
      with \<open>\<not> (bit i 0 \<and> bit i (Suc 0))\<close> show ?thesis
        apply (simp add: ccry_def controlled_def apply1_def bit_simps x_matrix_def ry_matrix_def
            set_triv unset_triv flip: c_def s_def)
        apply (simp add: algebra_simps unit)
        done
    qed
  qed
qed

lemma four_gates_run:
  "run [CCX 0 1 2, RY (Fin (- theta)) 2, CCX 0 1 2, RY (Fin theta) 2] psi =
     Some (ccry (2 * theta) 0 1 2 psi)"
  by (simp add: core_pointwise fun_eq_iff)

lemma ccry_ket:
  "ccry theta a b t (ket j) =
     (if bit j a \<and> bit j b then apply1 (ry_matrix theta) t (ket j) else ket j)"
  if "t \<noteq> a" "t \<noteq> b"
proof (rule ext)
  fix i
  show "ccry theta a b t (ket j) i =
     (if bit j a \<and> bit j b then apply1 (ry_matrix theta) t (ket j) else ket j) i"
  proof (cases "bit i a = bit j a \<and> bit i b = bit j b")
    case True
    then show ?thesis by (auto simp: ccry_def)
  next
    case False
    then have ne: "i \<noteq> j" "unset_bit t i \<noteq> j" "set_bit t i \<noteq> j"
      using that by (auto simp: bit_simps)
    then show ?thesis using False
      by (auto simp: ccry_def apply1_def ket_def)
  qed
qed

lemma exercise1_data:
  "exercise1_circuit = Inr \<lparr>qreg = 1, creg = 1, data = [X 0, H 0, X 0]\<rparr>"
  by (simp add: exercise1_circuit_def qubit_at_def QuantumCircuit_def append_instr_def)

lemma exercise2_data:
  "exercise2_circuit = Inr \<lparr>qreg = 3, creg = 3, data = [H 0, CX 0 1, CX 1 2]\<rparr>"
  by (simp add: exercise2_circuit_def qubit_at_def QuantumCircuit_def append_instr_def)

lemma exercise3_data:
  "exercise3_circuit = Inr \<lparr>qreg = 3, creg = 3, data = [H 0, CX 0 1, CX 1 2, Measure 3 3]\<rparr>"
  by (simp add: exercise3_circuit_def exercise2_data append_instr_def)

lemma set_bit_arith: "set_bit k (i::nat) = (if odd (i div 2 ^ k) then i else i + 2 ^ k)"
  by (simp add: set_bit_eq bit_iff_odd)

lemma unset_bit_arith: "unset_bit k (i::nat) = (if odd (i div 2 ^ k) then i - 2 ^ k else i)"
proof (cases "bit i k")
  case True
  have "set_bit k (unset_bit k i) = i"
    using True by (intro bit_eqI) (auto simp: bit_simps)
  moreover have "set_bit k (unset_bit k i) = unset_bit k i + 2 ^ k"
    by (simp add: set_bit_eq bit_simps)
  ultimately have "unset_bit k i = i - 2 ^ k" by simp
  then show ?thesis using True by (simp add: bit_iff_odd)
next
  case False
  have "unset_bit k i = i"
    using False by (intro bit_eqI) (auto simp: bit_simps)
  then show ?thesis using False by (simp add: bit_iff_odd)
qed

lemmas bit_arith = apply1_def controlled_def set_bit_arith unset_bit_arith bit_iff_odd

lemmas eval_simps = ket0_def h_matrix_def x_matrix_def

lemma upt2: "[0..<2] = [0, 1]"
  by (simp add: upt_rec)

lemma upt8: "[0..<8] = [0, 1, 2, 3, 4, 5, 6, 7]"
  by (simp add: upt_rec)

lemma ex1_amp:
  "apply1 x_matrix 0 (apply1 h_matrix 0 (apply1 x_matrix 0 ket0)) 0 = - 1 / complex_of_real (sqrt 2)"
  "apply1 x_matrix 0 (apply1 h_matrix 0 (apply1 x_matrix 0 ket0)) 1 = 1 / complex_of_real (sqrt 2)"
  unfolding bit_arith by (simp_all add: eval_simps)

lemma ex1_amplitudes:
  "get_amplitudes \<lparr>qreg = 1, creg = 1, data = [X 0, H 0, X 0]\<rparr> =
     Some [- 1 / complex_of_real (sqrt 2), 1 / complex_of_real (sqrt 2)]"
  using ex1_amp by (simp add: get_amplitudes_def upt2)

lemma ghz_run:
  "run [H 0, CX 0 1, CX 1 2] ket0 =
     Some (controlled 1 (apply1 x_matrix 2) (controlled 0 (apply1 x_matrix 1) (apply1 h_matrix 0 ket0)))"
  by simp

lemma ghz_amp:
  assumes "b < 8"
  shows "controlled 1 (apply1 x_matrix 2) (controlled 0 (apply1 x_matrix 1) (apply1 h_matrix 0 ket0)) b
    = (if b = 0 \<or> b = 7 then 1 / complex_of_real (sqrt 2) else 0)"
proof -
  have "b \<in> set [0, 1, 2, 3, 4, 5, 6, 7]"
    using assms by simp arith
  then show ?thesis
    unfolding bit_arith by (auto simp: eval_simps)
qed

lemma cmod_amp: "(cmod (1 / complex_of_real (sqrt 2)))\<^sup>2 = 1 / 2"
  by (simp add: norm_divide power_divide)

lemma ghz_probability:
  assumes "i < 8"
  shows "outcome_probability \<lparr>qreg = 3, creg = 3, data = [H 0, CX 0 1, CX 1 2, Measure 3 3]\<rparr> i =
     Some (if i = 0 \<or> i = 7 then 1 / 2 else 0)"
  using ghz_amp [OF assms] cmod_amp by (simp add: outcome_probability_def)

lemma bitstring3: "bitstring 3 0 = ''000''" "bitstring 3 7 = ''111''"
  by (simp_all add: bitstring_def upt_rec bit_iff_odd)

lemma count_list_replicate: "count_list (replicate n x) y = (if x = y then n else 0)"
  by (induction n) auto

lemma count_two:
  "list_all (\<lambda>i. i = a \<or> i = b) shots \<Longrightarrow> a \<noteq> b \<Longrightarrow>
   count_list shots a + count_list shots b = length shots"
  by (induction shots) auto

lemma count_map_two:
  "list_all (\<lambda>i. i = a \<or> i = b) shots \<Longrightarrow> f a \<noteq> f b \<Longrightarrow>
   count_list (map f shots) (f a) = count_list shots a \<and>
   count_list (map f shots) (f b) = count_list shots b"
  by (induction shots) auto

lemma count_map_other:
  "list_all (\<lambda>i. i = a \<or> i = b) shots \<Longrightarrow> key \<noteq> f a \<Longrightarrow> key \<noteq> f b \<Longrightarrow>
   count_list (map f shots) key = 0"
  by (induction shots) auto

lemma ghz_possible_run:
  assumes "possible_run \<lparr>qreg = 3, creg = 3, data = [H 0, CX 0 1, CX 1 2, Measure 3 3]\<rparr> shots"
  shows "length shots = 100 \<and> list_all (\<lambda>i. i = 0 \<or> i = 7) shots"
proof -
  let ?c = "\<lparr>qreg = 3, creg = 3, data = [H 0, CX 0 1, CX 1 2, Measure 3 3]\<rparr>"
  have len: "length shots = 100"
    and all: "\<forall>i\<in>set shots. i < 8 \<and> (case outcome_probability ?c i of None \<Rightarrow> False | Some p \<Rightarrow> 0 < p)"
    using assms unfolding possible_run_def list_all_iff by simp_all
  have "i = 0 \<or> i = 7" if "i \<in> set shots" for i
  proof -
    have lt: "i < 8" and pos: "case outcome_probability ?c i of None \<Rightarrow> False | Some p \<Rightarrow> 0 < p"
      using all that by blast+
    show ?thesis
    proof (rule ccontr)
      assume "\<not> (i = 0 \<or> i = 7)"
      then have "outcome_probability ?c i = Some 0"
        using ghz_probability [OF lt] by simp
      then show False using pos by simp
    qed
  qed
  then have "list_all (\<lambda>i. i = 0 \<or> i = 7) shots"
    unfolding list_all_iff by blast
  then show ?thesis using len by simp
qed

lemma ghz_two_outcome_run:
  "possible_run \<lparr>qreg = 3, creg = 3, data = [H 0, CX 0 1, CX 1 2, Measure 3 3]\<rparr>
     (replicate a 0 @ replicate b 7) \<longleftrightarrow> a + b = 100"
proof -
  have "list_all (\<lambda>i. i < 2 ^ qreg \<lparr>qreg = 3, creg = 3, data = [H 0, CX 0 1, CX 1 2, Measure 3 3]\<rparr> \<and>
       (case outcome_probability \<lparr>qreg = 3, creg = 3, data = [H 0, CX 0 1, CX 1 2, Measure 3 3]\<rparr> i of
          None \<Rightarrow> False | Some p \<Rightarrow> 0 < p)) (replicate a 0 @ replicate b 7)"
    using ghz_probability [of 0] ghz_probability [of 7] by (auto simp: list_all_iff)
  then show ?thesis by (simp add: possible_run_def)
qed

lemma np_allclose_refl: "np_allclose a a"
  by (simp add: np_allclose_def list_all2_same)

lemma prepare_state_general:
  assumes "4 \<le> q" and "py_index angles 0 = Inr angle0" and "py_index angles 1 = Inr angle1"
  shows "prepare_state q c angles = Inr \<lparr>qreg = q, creg = c, data =
      [H 0, H 1, Barrier, CU3 angle0 (Fin 0) (Fin 0) 0 2, X 0, Barrier,
       CCX 0 1 2, X 1, Barrier,
       CCX 0 1 2, RY (fneg angle1) 2, CCX 0 1 2, RY angle1 2, Barrier,
       CX 1 3]\<rparr>"
  using assms
  by (simp add: prepare_state_def qubit_at_def QuantumCircuit_def append_instr_def)

lemma ghz_amplitudes:
  "get_amplitudes \<lparr>qreg = 3, creg = 3, data = [H 0, CX 0 1, CX 1 2]\<rparr> =
     Some [1 / complex_of_real (sqrt 2), 0, 0, 0, 0, 0, 0, 1 / complex_of_real (sqrt 2)]"
  using ghz_amp [of 0] ghz_amp [of 1] ghz_amp [of 2] ghz_amp [of 3]
    ghz_amp [of 4] ghz_amp [of 5] ghz_amp [of 6] ghz_amp [of 7]
  by (simp add: get_amplitudes_def upt8)

lemma normalized_range: "a0\<^sup>2 + a1\<^sup>2 = 1 \<Longrightarrow> - 1 \<le> a0 \<and> a0 \<le> (1::real)"
proof -
  assume "a0\<^sup>2 + a1\<^sup>2 = 1"
  moreover have "0 \<le> a1\<^sup>2" by simp
  ultimately have "a0\<^sup>2 \<le> 1" by linarith
  then have "a0\<^sup>2 \<le> 1\<^sup>2" by simp
  then have "\<bar>a0\<bar> \<le> 1" using abs_le_square_iff [of a0 1] by simp
  then show ?thesis by (simp add: abs_le_iff)
qed

lemma arccos_079: "arccos 0.79 \<noteq> 0"
proof
  assume "arccos 0.79 = 0"
  then have "cos (arccos 0.79) = (1::real)" by simp
  then show False by (simp add: cos_arccos)
qed

lemma angle_values:
  "test_angles = [Fin (2 * arccos (- 0.549)), Fin (2 * arccos 0.053)]"
  "training_angle = Fin (arccos 0.79)"
  "angles_0 = [Fin (2 * arccos (- 0.549)), Fin (arccos 0.79)]"
  by (simp_all add: angles_0_def test_angles_def training_angle_def get_angle_def np_arccos_def
      test_set_def training_set_def)

subsection \<open>The kernel-methods notebook\<close>

text \<open>
  C1. In the circuit of \<open>prepare_state\<close> the instructions 9 to 12 are
  \<open>ccx; ry(-angles[1]); ccx; ry(angles[1])\<close> on the ancilla, index and data qubits. On
  every state they act as the double-controlled RY of \<open>2 * angles[1]\<close>; on a basis state
  with ancilla and index both 1 the data qubit is rotated by RY of \<open>2 * angles[1]\<close>, and
  every other basis state is left as it is.
\<close>

theorem prepare_state_double_controlled_ry:
  assumes "4 \<le> q" and "py_index angles 0 = Inr angle0" and "py_index angles 1 = Inr (Fin theta)"
  shows "\<exists>circ. prepare_state q c angles = Inr circ \<and>
    take 4 (drop 9 (data circ)) = [CCX 0 1 2, RY (Fin (- theta)) 2, CCX 0 1 2, RY (Fin theta) 2] \<and>
    run (take 4 (drop 9 (data circ))) psi = Some (ccry (2 * theta) 0 1 2 psi) \<and>
    run (take 4 (drop 9 (data circ))) (ket j) =
      Some (if bit j 0 \<and> bit j 1 then apply1 (ry_matrix (2 * theta)) 2 (ket j) else ket j)"
proof -
  have seq: "run [CCX 0 1 2, RY (Fin (- theta)) 2, CCX 0 1 2, RY (Fin theta) 2] phi =
      Some (ccry (2 * theta) 0 1 2 phi)" for phi
    by (rule four_gates_run)
  have basis: "ccry (2 * theta) 0 1 2 (ket j) =
      (if bit j 0 \<and> bit j 1 then apply1 (ry_matrix (2 * theta)) 2 (ket j) else ket j)"
    by (rule ccry_ket) simp_all
  show ?thesis
    unfolding prepare_state_general [OF assms]
    using seq [of psi] seq [of "ket j"] basis by simp
qed

theorem prepare_state_double_controlled_ry_witness:
  "(4::nat) \<le> 4 \<and> py_index [Fin 1, Fin (1 / 2)] 0 = Inr (Fin 1) \<and>
   py_index [Fin 1, Fin (1 / 2)] 1 = Inr (Fin (1 / 2)) \<and>
   (\<exists>circ. prepare_state 4 4 [Fin 1, Fin (1 / 2)] = Inr circ \<and>
     take 4 (drop 9 (data circ)) = [CCX 0 1 2, RY (Fin (- (1 / 2))) 2, CCX 0 1 2, RY (Fin (1 / 2)) 2] \<and>
     run (take 4 (drop 9 (data circ))) (ket 3) = Some (apply1 (ry_matrix 1) 2 (ket 3)) \<and>
     run (take 4 (drop 9 (data circ))) (ket 5) = Some (ket 5))"
  using prepare_state_double_controlled_ry [of 4 "[Fin 1, Fin (1 / 2)]" "Fin 1" "1 / 2" 4 ket0 3]
    prepare_state_double_controlled_ry [of 4 "[Fin 1, Fin (1 / 2)]" "Fin 1" "1 / 2" 4 ket0 5]
  by (auto simp: py_index_def bit_iff_odd)

text \<open>
  C2, amended. For a normalized vector \<open>get_angle(a0)\<close> is \<open>2 * arccos(a0)\<close>. The test
  angles are \<open>get_angle\<close> of the first components and \<open>angles[0]\<close> is passed to \<open>cu3\<close>
  as it is. The training angle is half of \<open>get_angle\<close>: \<open>angles[1]\<close> is \<open>arccos(0.79)\<close>,
  the parameter of the two \<open>ry\<close> calls.
\<close>

theorem get_angle_rotation_parameters:
  "(a0\<^sup>2 + a1\<^sup>2 = 1 \<longrightarrow> get_angle a0 = Fin (2 * arccos a0)) \<and>
   test_angles = [get_angle (- 0.549), get_angle 0.053] \<and>
   training_angle = fdiv (get_angle 0.79) (Fin 2) \<and>
   angles_0 = [Fin (2 * arccos (- 0.549)), Fin (arccos 0.79)] \<and>
   (\<exists>circ. state_preparation_0 = Inr circ \<and>
      data circ ! 3 = CU3 (Fin (2 * arccos (- 0.549))) (Fin 0) (Fin 0) 0 2 \<and>
      data circ ! 10 = RY (Fin (- arccos 0.79)) 2 \<and>
      data circ ! 12 = RY (Fin (arccos 0.79)) 2)"
proof -
  have "get_angle a0 = Fin (2 * arccos a0)" if "a0\<^sup>2 + a1\<^sup>2 = 1"
    using normalized_range [OF that] by (simp add: get_angle_def np_arccos_def)
  moreover have "test_angles = [get_angle (- 0.549), get_angle 0.053]"
    by (simp add: test_angles_def test_set_def)
  moreover have "training_angle = fdiv (get_angle 0.79) (Fin 2)"
    by (simp add: training_angle_def training_set_def)
  moreover have "\<exists>circ. state_preparation_0 = Inr circ \<and>
      data circ ! 3 = CU3 (Fin (2 * arccos (- 0.549))) (Fin 0) (Fin 0) 0 2 \<and>
      data circ ! 10 = RY (Fin (- arccos 0.79)) 2 \<and>
      data circ ! 12 = RY (Fin (arccos 0.79)) 2"
    unfolding state_preparation_0_def q_register_def c_register_def angle_values
    using prepare_state_general [of 4 "[Fin (2 * arccos (- 0.549)), Fin (arccos 0.79)]"
        "Fin (2 * arccos (- 0.549))" "Fin (arccos 0.79)" 4]
    by (simp add: py_index_def)
  ultimately show ?thesis using angle_values(3) by blast
qed

theorem get_angle_rotation_parameters_witness:
  "(0.6::real)\<^sup>2 + 0.8\<^sup>2 = 1 \<and> get_angle 0.6 = Fin (2 * arccos 0.6)"
  using get_angle_rotation_parameters [of "0.6" "0.8"] by (simp add: power2_eq_square)

text \<open>
  C2 as stated fails: the angle passed as \<open>angles[1]\<close> for the second training vector is
  not \<open>get_angle\<close> of its first component.
\<close>

theorem training_angle_not_get_angle_counterexample:
  "angles_0 ! 1 \<noteq> get_angle (training_set ! 1 ! 0)"
  using arccos_079 by (simp add: angle_values get_angle_def np_arccos_def training_set_def)

text \<open>
  C7. Nothing checks normalization. For \<open>|a0| > 1\<close> \<open>get_angle\<close> raises nothing and returns
  NaN, as does the halved angle; \<open>prepare_state\<close> builds a circuit from the angles of any two
  inputs.
\<close>

theorem get_angle_unchecked:
  "(1 < \<bar>a0\<bar> \<longrightarrow> get_angle a0 = NaN \<and> fdiv (get_angle a0) (Fin 2) = NaN) \<and>
   (\<exists>circ. prepare_state q_register c_register [get_angle a0, fdiv (get_angle b0) (Fin 2)] = Inr circ)"
proof -
  have "get_angle a0 = NaN" if "1 < \<bar>a0\<bar>"
    using that by (auto simp: get_angle_def np_arccos_def)
  moreover have "\<exists>circ. prepare_state q_register c_register
      [get_angle a0, fdiv (get_angle b0) (Fin 2)] = Inr circ"
    unfolding q_register_def
    using prepare_state_general [of 4 "[get_angle a0, fdiv (get_angle b0) (Fin 2)]"
        "get_angle a0" "fdiv (get_angle b0) (Fin 2)" c_register]
    by (simp add: py_index_def)
  ultimately show ?thesis by simp
qed

theorem get_angle_unchecked_witness:
  "1 < \<bar>2::real\<bar> \<and> get_angle 2 = NaN \<and> fdiv (get_angle 2) (Fin 2) = NaN"
  using get_angle_unchecked [of 2 2] by simp

text \<open>
  C10. \<open>interfere_data_and_test_instances\<close> does not depend on its \<open>angles\<close> argument and
  never changes the instructions that the circuit already has. It completes exactly when
  \<open>q\<close> and \<open>c\<close> are the registers of the circuit, non-empty and of the same size, and then
  it appends a Hadamard on \<open>q[0]\<close>, a barrier and the measurement of all qubits.
\<close>

theorem interfere_appends:
  "interfere_data_and_test_instances circ q c angles1 =
     interfere_data_and_test_instances circ q c angles2 \<and>
   take (length (data circ)) (data (fst (interfere_data_and_test_instances circ q c angles1))) =
     data circ \<and>
   (snd (interfere_data_and_test_instances circ q c angles1) = None \<longleftrightarrow>
      0 < q \<and> q = qreg circ \<and> c = creg circ \<and> q = c) \<and>
   (0 < q \<and> q = qreg circ \<and> c = creg circ \<and> q = c \<longrightarrow>
      interfere_data_and_test_instances circ q c angles1 =
        (circ\<lparr>data := data circ @ [H 0, Barrier, Measure q c]\<rparr>, None))"
proof -
  have indep: "interfere_data_and_test_instances circ q c angles1 =
      interfere_data_and_test_instances circ q c angles2"
    by (simp add: interfere_data_and_test_instances_def)
  have frame: "take (length (data circ))
      (data (fst (interfere_data_and_test_instances circ q c angles1))) = data circ"
    by (simp add: interfere_data_and_test_instances_def qubit_at_def append_instr_def Let_def)
  have completes: "snd (interfere_data_and_test_instances circ q c angles1) = None \<longleftrightarrow>
      0 < q \<and> q = qreg circ \<and> c = creg circ \<and> q = c"
    by (auto simp: interfere_data_and_test_instances_def qubit_at_def Let_def)
  have appended: "interfere_data_and_test_instances circ q c angles1 =
      (circ\<lparr>data := data circ @ [H 0, Barrier, Measure q c]\<rparr>, None)"
    if "0 < q \<and> q = qreg circ \<and> c = creg circ \<and> q = c"
    using that
    by (simp add: interfere_data_and_test_instances_def qubit_at_def append_instr_def Let_def)
  show ?thesis
    using indep frame completes appended by blast
qed

theorem interfere_appends_witness:
  "(0::nat) < 4 \<and> qreg \<lparr>qreg = 4, creg = 4, data = [H 0, X 0]\<rparr> = 4 \<and>
   creg \<lparr>qreg = 4, creg = 4, data = [H 0, X 0]\<rparr> = 4 \<and>
   interfere_data_and_test_instances \<lparr>qreg = 4, creg = 4, data = [H 0, X 0]\<rparr> 4 4 [Fin 1, NaN] =
     (\<lparr>qreg = 4, creg = 4, data = [H 0, X 0, H 0, Barrier, Measure 4 4]\<rparr>, None) \<and>
   interfere_data_and_test_instances \<lparr>qreg = 4, creg = 3, data = [H 0, X 0]\<rparr> 4 3 [Fin 1, NaN] =
     (\<lparr>qreg = 4, creg = 3, data = [H 0, X 0, H 0, Barrier]\<rparr>, Some CircuitError) \<and>
   interfere_data_and_test_instances \<lparr>qreg = 2, creg = 2, data = [H 0, X 0]\<rparr> 4 4 [Fin 1, NaN] =
     (\<lparr>qreg = 2, creg = 2, data = [H 0, X 0]\<rparr>, Some CircuitError)"
  using interfere_appends [of "\<lparr>qreg = 4, creg = 4, data = [H 0, X 0]\<rparr>" 4 4 "[Fin 1, NaN]" "[Fin 1, NaN]"]
  by (simp add: interfere_data_and_test_instances_def qubit_at_def append_instr_def)

subsection \<open>The gate-model assignment\<close>

text \<open>
  C4. The circuit of exercise 1, \<open>X; H; X\<close> on one qubit from the zero state, has the
  amplitude vector \<open>[-1/sqrt 2, 1/sqrt 2]\<close>, so the assertion with \<open>np.allclose\<close> holds.
\<close>

theorem exercise1_amplitudes:
  "\<exists>circ amplitudes. exercise1_circuit = Inr circ \<and> get_amplitudes circ = Some amplitudes \<and>
     amplitudes = [- 1 / complex_of_real (sqrt 2), 1 / complex_of_real (sqrt 2)] \<and>
     np_allclose amplitudes [- 1 / complex_of_real (sqrt 2), 1 / complex_of_real (sqrt 2)]"
  using ex1_amplitudes by (simp add: exercise1_data np_allclose_refl)

text \<open>
  C5. The circuit of exercise 2, \<open>H\<close> on qubit 0, \<open>CNOT(0, 1)\<close>, \<open>CNOT(1, 2)\<close> from the
  zero state, has the amplitude vector \<open>[1/sqrt 2, 0, 0, 0, 0, 0, 0, 1/sqrt 2]\<close>.
\<close>

theorem exercise2_ghz_amplitudes:
  "\<exists>circ amplitudes. exercise2_circuit = Inr circ \<and> get_amplitudes circ = Some amplitudes \<and>
     amplitudes = [1 / complex_of_real (sqrt 2), 0, 0, 0, 0, 0, 0, 1 / complex_of_real (sqrt 2)] \<and>
     np_allclose amplitudes [1 / complex_of_real (sqrt 2), 0, 0, 0, 0, 0, 0, 1 / complex_of_real (sqrt 2)]"
  using ghz_amplitudes by (simp add: exercise2_data np_allclose_refl)

lemma fl64_below_one:
  assumes "1 / 2 ^ k \<le> \<bar>x\<bar>" and "\<bar>x\<bar> < 2 / 2 ^ k"
  shows "fl64 x = of_int (round_even (x * 2 ^ (k + 52))) / 2 ^ (k + 52)"
proof -
  have "0 < 1 / (2::real) ^ k" by simp
  then have pos: "0 < \<bar>x\<bar>" using assms(1) by linarith
  have p: "2 powr (of_int (- int k)) = 1 / (2::real) ^ k"
    by (simp add: powr_minus powr_realpow divide_inverse)
  have p1: "2 powr (of_int (- int k) + 1) = 2 / (2::real) ^ k"
  proof -
    have "2 powr (of_int (- int k) + 1) = 2 powr (of_int (- int k)) * (2::real) powr 1"
      by (rule powr_add)
    then show ?thesis by (simp only: p) simp
  qed
  have "\<lfloor>log 2 \<bar>x\<bar>\<rfloor> = - int k"
    using floor_log_eq_powr_iff [of "\<bar>x\<bar>" 2 "- int k"] pos assms p p1 by simp
  moreover have "2 powr (of_int (- int k) - 52) = 1 / (2::real) ^ (k + 52)"
  proof -
    have "of_int (- int k) - (52::real) = - real (k + 52)" by simp
    then show ?thesis by (simp only: powr_minus powr_realpow) (simp add: divide_inverse)
  qed
  ultimately show ?thesis using pos by (simp add: fl64_def Let_def)
qed

lemma fl64_tenth: "fl64 (1 / 10) = 7205759403792794 / 2 ^ 56"
  using fl64_below_one [of 4 "1 / 10"] by (simp add: round_even_def Let_def)

lemma fl64_ratio_39: "fl64 (39 / 100) = 7025615418697974 / 2 ^ 54"
  using fl64_below_one [of 2 "39 / 100"] by (simp add: round_even_def Let_def)

lemma fl64_diff_39: "fl64 (7025615418697974 / 2 ^ 54 - 1 / 2) = - (7926335344172072 / 2 ^ 56)"
  using fl64_below_one [of 4 "7025615418697974 / 2 ^ 54 - 1 / 2"]
  by (simp add: round_even_def Let_def)

lemma fl64_ratio_40: "fl64 (40 / 100) = 7205759403792794 / 2 ^ 54"
  using fl64_below_one [of 2 "40 / 100"] by (simp add: round_even_def Let_def)

lemma fl64_diff_40: "fl64 (7205759403792794 / 2 ^ 54 - 1 / 2) = - (7205759403792792 / 2 ^ 56)"
  using fl64_below_one [of 4 "7205759403792794 / 2 ^ 54 - 1 / 2"]
  by (simp add: round_even_def Let_def)

lemma fl64_ratio_60: "fl64 (60 / 100) = 5404319552844595 / 2 ^ 53"
  using fl64_below_one [of 1 "60 / 100"] by (simp add: round_even_def Let_def)

lemma fl64_diff_60: "fl64 (5404319552844595 / 2 ^ 53 - 1 / 2) = 7205759403792792 / 2 ^ 56"
  using fl64_below_one [of 4 "5404319552844595 / 2 ^ 53 - 1 / 2"]
  by (simp add: round_even_def Let_def)

text \<open>
  The float comparison accepts the counts 40 and 60, which the comparison on the reals
  would refuse, and refuses 39.
\<close>

lemma tolerance_40: "\<bar>fl64 (fl64 (real_of_int 40 / 100) - 1 / 2)\<bar> < fl64 (1 / 10)"
  unfolding of_int_numeral fl64_ratio_40 fl64_diff_40 fl64_tenth by simp

lemma tolerance_60: "\<bar>fl64 (fl64 (real_of_int 60 / 100) - 1 / 2)\<bar> < fl64 (1 / 10)"
  unfolding of_int_numeral fl64_ratio_60 fl64_diff_60 fl64_tenth by simp

lemma tolerance_39: "\<not> \<bar>fl64 (fl64 (real_of_int 39 / 100) - 1 / 2)\<bar> < fl64 (1 / 10)"
  unfolding of_int_numeral fl64_ratio_39 fl64_diff_39 fl64_tenth by simp

lemma exercise3_asserts_40_60:
  "exercise3_asserts (get_counts \<lparr>qreg = 3, creg = 3, data = [H 0, CX 0 1, CX 1 2, Measure 3 3]\<rparr>
     (replicate 40 0 @ replicate 60 7)) = None"
  using tolerance_40 tolerance_60
  by (simp add: exercise3_asserts_def get_counts_def bitstring3 count_list_replicate Let_def)

text \<open>
  A run of 100 times \<open>111\<close> is possible too; there \<open>counts['000']\<close> raises KeyError.
\<close>

lemma exercise3_asserts_one_sided:
  "possible_run \<lparr>qreg = 3, creg = 3, data = [H 0, CX 0 1, CX 1 2, Measure 3 3]\<rparr> (replicate 0 0 @ replicate 100 7) \<and>
   exercise3_asserts (get_counts \<lparr>qreg = 3, creg = 3, data = [H 0, CX 0 1, CX 1 2, Measure 3 3]\<rparr> (replicate 0 0 @ replicate 100 7)) = Some KeyError"
  using ghz_two_outcome_run [of 0 100]
  by (simp add: exercise3_asserts_def get_counts_def bitstring3 count_list_replicate Let_def)

text \<open>
  In every possible run of the measured circuit the counts have no key but \<open>000\<close> and
  \<open>111\<close>, and where both are present their counts add up to 100.
\<close>

lemma ghz_run_counts:
  assumes "possible_run \<lparr>qreg = 3, creg = 3, data = [H 0, CX 0 1, CX 1 2, Measure 3 3]\<rparr> shots"
  shows "dom (get_counts \<lparr>qreg = 3, creg = 3, data = [H 0, CX 0 1, CX 1 2, Measure 3 3]\<rparr> shots) \<subseteq> {''000'', ''111''} \<and>
    (\<forall>n0 n1. get_counts \<lparr>qreg = 3, creg = 3, data = [H 0, CX 0 1, CX 1 2, Measure 3 3]\<rparr> shots ''000'' = Some n0 \<and> get_counts \<lparr>qreg = 3, creg = 3, data = [H 0, CX 0 1, CX 1 2, Measure 3 3]\<rparr> shots ''111'' = Some n1 \<longrightarrow>
       n0 + n1 = 100)"
proof -
  have run: "length shots = 100" "list_all (\<lambda>i. i = 0 \<or> i = 7) shots"
    using ghz_possible_run assms by simp_all
  have ne: "bitstring 3 0 \<noteq> bitstring 3 7" by (simp add: bitstring3)
  have c0: "count_list (map (bitstring 3) shots) ''000'' = count_list shots 0"
    and c7: "count_list (map (bitstring 3) shots) ''111'' = count_list shots 7"
    using count_map_two [OF run(2) ne] by (simp_all add: bitstring3)
  have other: "count_list (map (bitstring 3) shots) key = 0" if "key \<noteq> ''000''" "key \<noteq> ''111''" for key
    using count_map_other [OF run(2), of key "bitstring 3"] that by (simp add: bitstring3)
  have total: "count_list shots 0 + count_list shots 7 = 100"
    using count_two [OF run(2)] run(1) by simp
  have "key = ''000'' \<or> key = ''111''" if "get_counts \<lparr>qreg = 3, creg = 3, data = [H 0, CX 0 1, CX 1 2, Measure 3 3]\<rparr> shots key \<noteq> None" for key
  proof (rule ccontr)
    assume "\<not> (key = ''000'' \<or> key = ''111'')"
    then have "count_list (map (bitstring 3) shots) key = 0" using other by simp
    then show False using that by (simp add: get_counts_def)
  qed
  then have dom: "dom (get_counts \<lparr>qreg = 3, creg = 3, data = [H 0, CX 0 1, CX 1 2, Measure 3 3]\<rparr> shots) \<subseteq> {''000'', ''111''}"
    by (auto simp: dom_def)
  have "n0 + n1 = 100"
    if "get_counts \<lparr>qreg = 3, creg = 3, data = [H 0, CX 0 1, CX 1 2, Measure 3 3]\<rparr> shots ''000'' = Some n0" "get_counts \<lparr>qreg = 3, creg = 3, data = [H 0, CX 0 1, CX 1 2, Measure 3 3]\<rparr> shots ''111'' = Some n1" for n0 n1
  proof -
    have "n0 = int (count_list shots 0)"
      using that(1) by (simp add: get_counts_def c0 Let_def split: if_splits)
    moreover have "n1 = int (count_list shots 7)"
      using that(2) by (simp add: get_counts_def c7 Let_def split: if_splits)
    ultimately show ?thesis using total by linarith
  qed
  then show ?thesis using dom by blast
qed

text \<open>
  C6, at the failing run. In the measured circuit of exercise 3 the outcomes \<open>000\<close> and
  \<open>111\<close> have probability 1/2 each, so 39 times \<open>000\<close> and 61 times \<open>111\<close> is a possible
  run of 100 shots. On its counts the first assertion of the notebook,
  \<open>abs(counts['000']/100-.5) < 0.1\<close>, fails.
\<close>

theorem exercise3_assertion_fails:
  "exercise3_circuit = Inr \<lparr>qreg = 3, creg = 3, data = [H 0, CX 0 1, CX 1 2, Measure 3 3]\<rparr> \<and>
   outcome_probability \<lparr>qreg = 3, creg = 3, data = [H 0, CX 0 1, CX 1 2, Measure 3 3]\<rparr> 0 = Some (1 / 2) \<and>
   outcome_probability \<lparr>qreg = 3, creg = 3, data = [H 0, CX 0 1, CX 1 2, Measure 3 3]\<rparr> 7 = Some (1 / 2) \<and>
   possible_run \<lparr>qreg = 3, creg = 3, data = [H 0, CX 0 1, CX 1 2, Measure 3 3]\<rparr> (replicate 39 0 @ replicate 61 7) \<and>
   get_counts \<lparr>qreg = 3, creg = 3, data = [H 0, CX 0 1, CX 1 2, Measure 3 3]\<rparr> (replicate 39 0 @ replicate 61 7) ''000'' = Some 39 \<and>
   get_counts \<lparr>qreg = 3, creg = 3, data = [H 0, CX 0 1, CX 1 2, Measure 3 3]\<rparr> (replicate 39 0 @ replicate 61 7) ''111'' = Some 61 \<and>
   exercise3_asserts (get_counts \<lparr>qreg = 3, creg = 3, data = [H 0, CX 0 1, CX 1 2, Measure 3 3]\<rparr> (replicate 39 0 @ replicate 61 7)) = Some AssertionError"
proof -
  have c: "get_counts \<lparr>qreg = 3, creg = 3, data = [H 0, CX 0 1, CX 1 2, Measure 3 3]\<rparr> (replicate 39 0 @ replicate 61 7) ''000'' = Some 39"
    "get_counts \<lparr>qreg = 3, creg = 3, data = [H 0, CX 0 1, CX 1 2, Measure 3 3]\<rparr> (replicate 39 0 @ replicate 61 7) ''111'' = Some 61"
    by (simp_all add: get_counts_def bitstring3 count_list_replicate Let_def)
  have "exercise3_asserts (get_counts \<lparr>qreg = 3, creg = 3, data = [H 0, CX 0 1, CX 1 2, Measure 3 3]\<rparr> (replicate 39 0 @ replicate 61 7)) = Some AssertionError"
    using tolerance_39 c by (simp add: exercise3_asserts_def)
  then show ?thesis
    using c exercise3_data ghz_two_outcome_run [of 39 61] ghz_probability [of 0] ghz_probability [of 7]
    by simp
qed

end
